theory Spec2Isabelle
  imports Complex_Main
begin

section \<open>Care-note parsing: the model of \<open>parseAndStructure\<close> (src/app/page.js)\<close>

text \<open>
  The function under study turns the text of a care note into a client name, a date and a
  list of timed activities.  It is written with JavaScript strings, regular expressions,
  \<open>parseFloat\<close>/\<open>parseInt\<close> and Number arithmetic; each of these is modelled below.

  \<^item> A string is the list of its UTF-16 code units, each a natural number.
  \<^item> A regular expression is the list of its successful matches in the priority order of
    the backtracking matcher (greedy: longest first, lazy: shortest first); \<open>match\<close>
    returns the first of them, or \<open>null\<close>.
  \<^item> A Number is \<open>NaN\<close>, an infinity or a rational: rounding to binary64 is not
    modelled, a decimal token stands for its exact value.
  \<^item> \<open>new Date().toLocaleDateString()\<close> is the parameter \<open>today\<close>.
  \<^item> The field \<open>totalHours\<close> (\<open>totalMinutes / 60\<close> rendered by \<open>toFixed(2)\<close>) is not
    part of the record modelled here.
\<close>

subsection \<open>Strings and character classes\<close>

type_synonym jsstring = "nat list"

definition js :: "string \<Rightarrow> jsstring" where
  "js s = map of_char s"

definition is_digit :: "nat \<Rightarrow> bool" where
  "is_digit c = (48 \<le> c \<and> c \<le> 57)"

text \<open>Line terminators: LF, CR, LS, PS.  The regular expression \<open>.\<close> matches any other unit.\<close>

definition is_line_terminator :: "nat \<Rightarrow> bool" where
  "is_line_terminator c = (c = 10 \<or> c = 13 \<or> c = 8232 \<or> c = 8233)"

definition is_dot :: "nat \<Rightarrow> bool" where
  "is_dot c = (\<not> is_line_terminator c)"

text \<open>
  White space as \<open>\s\<close> and \<open>trim\<close> read it: TAB, VT, FF, SP, NBSP, U+1680,
  U+2000 to U+200A, U+202F, U+205F, U+3000, U+FEFF and the line terminators.
\<close>

definition is_space :: "nat \<Rightarrow> bool" where
  "is_space c = (c = 9 \<or> c = 11 \<or> c = 12 \<or> c = 32 \<or> c = 160 \<or> c = 5760
     \<or> (8192 \<le> c \<and> c \<le> 8202) \<or> c = 8239 \<or> c = 8287 \<or> c = 12288 \<or> c = 65279
     \<or> is_line_terminator c)"

text \<open>The class \<open>[-\<dots>]\<close> of the source: the hyphen and the en dash U+2013.\<close>

definition is_dash :: "nat \<Rightarrow> bool" where
  "is_dash c = (c = 45 \<or> c = 8211)"

definition is_digit_or_period :: "nat \<Rightarrow> bool" where
  "is_digit_or_period c = (is_digit c \<or> c = 46)"

definition non_digit :: "nat \<Rightarrow> bool" where
  "non_digit c = (\<not> is_digit c)"

definition trim :: "jsstring \<Rightarrow> jsstring" where
  "trim s = rev (dropWhile is_space (rev (dropWhile is_space s)))"

text \<open>\<open>s.split(d)\<close> for a one-unit separator: \<open>''''.split\<close> is the list of one empty string.\<close>

fun split_on :: "nat \<Rightarrow> jsstring \<Rightarrow> jsstring list" where
  "split_on d [] = [[]]"
| "split_on d (c # s) =
     (if c = d then [] # split_on d s
      else (case split_on d s of [] \<Rightarrow> [[c]] | l # ls \<Rightarrow> (c # l) # ls))"

fun str_includes :: "jsstring \<Rightarrow> jsstring \<Rightarrow> bool" where
  "str_includes [] w = (w = [])"
| "str_includes (c # s) w = (take (length w) (c # s) = w \<or> str_includes s w)"

subsection \<open>Values, errors and match results\<close>

datatype jsval = Undefined | Str jsstring

datatype error = TypeError

text \<open>\<open>m[i]\<close> on a match array: \<open>undefined\<close> out of range.\<close>

definition prop_get :: "jsval list \<Rightarrow> nat \<Rightarrow> jsval" where
  "prop_get m i = (if i < length m then m ! i else Undefined)"

text \<open>\<open>v.trim()\<close>: a TypeError on \<open>undefined\<close>.\<close>

definition call_trim :: "jsval \<Rightarrow> error + jsstring" where
  "call_trim v = (case v of Undefined \<Rightarrow> Inl TypeError | Str s \<Rightarrow> Inr (trim s))"

text \<open>\<open>v || d\<close> for a string \<open>d\<close>: \<open>undefined\<close> and the empty string are falsy.\<close>

definition or_else :: "jsval \<Rightarrow> jsstring \<Rightarrow> jsstring" where
  "or_else v d = (case v of Undefined \<Rightarrow> d | Str s \<Rightarrow> if s = [] then d else s)"

definition to_string :: "jsval \<Rightarrow> jsstring" where
  "to_string v = (case v of Undefined \<Rightarrow> js ''undefined'' | Str s \<Rightarrow> s)"

subsection \<open>Regular expressions as lists of successes\<close>

text \<open>
  Each combinator returns the ways its pattern matches a prefix of the input, as pairs
  (matched text, rest), in the order the backtracking matcher tries them.
\<close>

fun lazy_star :: "(nat \<Rightarrow> bool) \<Rightarrow> jsstring \<Rightarrow> (jsstring \<times> jsstring) list" where
  "lazy_star p [] = [([], [])]"
| "lazy_star p (c # s) =
     ([], c # s) # (if p c then map (\<lambda>(m, r). (c # m, r)) (lazy_star p s) else [])"

definition greedy_star :: "(nat \<Rightarrow> bool) \<Rightarrow> jsstring \<Rightarrow> (jsstring \<times> jsstring) list" where
  "greedy_star p s = rev (lazy_star p s)"

definition lazy_plus :: "(nat \<Rightarrow> bool) \<Rightarrow> jsstring \<Rightarrow> (jsstring \<times> jsstring) list" where
  "lazy_plus p s = filter (\<lambda>(m, r). m \<noteq> []) (lazy_star p s)"

definition greedy_plus :: "(nat \<Rightarrow> bool) \<Rightarrow> jsstring \<Rightarrow> (jsstring \<times> jsstring) list" where
  "greedy_plus p s = rev (lazy_plus p s)"

text \<open>The bounded greedy quantifier \<open>{lo,hi}\<close>.\<close>

definition greedy_range ::
  "(nat \<Rightarrow> bool) \<Rightarrow> nat \<Rightarrow> nat \<Rightarrow> jsstring \<Rightarrow> (jsstring \<times> jsstring) list" where
  "greedy_range p lo hi s =
     filter (\<lambda>(m, r). lo \<le> length m \<and> length m \<le> hi) (greedy_star p s)"

text \<open>One given code unit; one unit of a class; a literal string; an optional unit (greedy).\<close>

definition chr :: "nat \<Rightarrow> jsstring \<Rightarrow> jsstring list" where
  "chr c s = (case s of [] \<Rightarrow> [] | x # r \<Rightarrow> if x = c then [r] else [])"

definition cls :: "(nat \<Rightarrow> bool) \<Rightarrow> jsstring \<Rightarrow> jsstring list" where
  "cls p s = (case s of [] \<Rightarrow> [] | x # r \<Rightarrow> if p x then [r] else [])"

definition lit :: "jsstring \<Rightarrow> jsstring \<Rightarrow> jsstring list" where
  "lit w s = (if take (length w) s = w then [drop (length w) s] else [])"

definition opt_chr :: "nat \<Rightarrow> jsstring \<Rightarrow> (jsstring \<times> jsstring) list" where
  "opt_chr c s = map (\<lambda>r. ([c], r)) (chr c s) @ [([], s)]"

text \<open>The start positions of an unanchored search, leftmost first.\<close>

fun tails :: "jsstring \<Rightarrow> jsstring list" where
  "tails [] = [[]]"
| "tails (c # s) = (c # s) # tails s"

text \<open>\<open>s.match(re)\<close> without the global flag: the first success, or \<open>null\<close>.\<close>

definition first_match :: "'a list \<Rightarrow> 'a option" where
  "first_match ms = (case ms of [] \<Rightarrow> None | m # _ \<Rightarrow> Some m)"

text \<open>The date token \<open>\d{1,2}\/\d{1,2}\/\d{2,4}\<close>.\<close>

definition date_re :: "jsstring \<Rightarrow> (jsstring \<times> jsstring) list" where
  "date_re s =
     [(a @ [47] @ b @ [47] @ c, r5).
        (a, r1) \<leftarrow> greedy_range is_digit 1 2 s,
        r2 \<leftarrow> chr 47 r1,
        (b, r3) \<leftarrow> greedy_range is_digit 1 2 r2,
        r4 \<leftarrow> chr 47 r3,
        (c, r5) \<leftarrow> greedy_range is_digit 2 4 r4]"

text \<open>Line 79: \<open>/^([^0-9]+?)(?:\s+(\d{1,2}\/\d{1,2}\/\d{2,4}))?$/\<close>.\<close>

definition header_re :: "jsstring \<Rightarrow> jsval list option" where
  "header_re line = first_match
     [[Str line, Str g1, g2].
        (g1, r1) \<leftarrow> lazy_plus non_digit line,
        (g2, r2) \<leftarrow> [(Str d, r4). (w, r3) \<leftarrow> greedy_plus is_space r1, (d, r4) \<leftarrow> date_re r3]
                    @ [(Undefined, r1)],
        r2 = []]"

text \<open>Line 88: \<open>/^\d+\./\<close>.\<close>

definition marker_re :: "jsstring \<Rightarrow> jsval list option" where
  "marker_re line = first_match
     [[Str (d @ [46])]. (d, r1) \<leftarrow> greedy_plus is_digit line, r2 \<leftarrow> chr 46 r1]"

text \<open>Line 89: \<open>/^\d+\.\s*(.+?)\s*[-\<dots>]\s*(.+)$/\<close>, the class holding hyphen and en dash.\<close>

definition activity_re :: "jsstring \<Rightarrow> jsval list option" where
  "activity_re line = first_match
     [[Str line, Str g1, Str g2].
        (d, r1) \<leftarrow> greedy_plus is_digit line,
        r2 \<leftarrow> chr 46 r1,
        (w1, r3) \<leftarrow> greedy_star is_space r2,
        (g1, r4) \<leftarrow> lazy_plus is_dot r3,
        (w2, r5) \<leftarrow> greedy_star is_space r4,
        r6 \<leftarrow> cls is_dash r5,
        (w3, r7) \<leftarrow> greedy_star is_space r6,
        (g2, r8) \<leftarrow> greedy_plus is_dot r7,
        r8 = []]"

text \<open>Line 97: \<open>/^\d*\.?\d+$/\<close>.\<close>

definition numeric_re :: "jsstring \<Rightarrow> jsval list option" where
  "numeric_re s = first_match
     [[Str s].
        (a, r1) \<leftarrow> greedy_star is_digit s,
        (p, r2) \<leftarrow> opt_chr 46 r1,
        (b, r3) \<leftarrow> greedy_plus is_digit r2,
        r3 = []]"

text \<open>Line 101: \<open>/(\d+)\s*min/\<close>, searched from every start position.\<close>

definition min_re :: "jsstring \<Rightarrow> jsval list option" where
  "min_re s = first_match
     [[Str (g1 @ w @ js ''min''), Str g1].
        t \<leftarrow> tails s,
        (g1, r1) \<leftarrow> greedy_plus is_digit t,
        (w, r2) \<leftarrow> greedy_star is_space r1,
        r3 \<leftarrow> lit (js ''min'') r2]"

text \<open>Line 104: \<open>/([\d.]+)\s*hrs?/\<close>, searched from every start position.\<close>

definition hr_re :: "jsstring \<Rightarrow> jsval list option" where
  "hr_re s = first_match
     [[Str (g1 @ w @ js ''hr'' @ p), Str g1].
        t \<leftarrow> tails s,
        (g1, r1) \<leftarrow> greedy_plus is_digit_or_period t,
        (w, r2) \<leftarrow> greedy_star is_space r1,
        r3 \<leftarrow> lit (js ''hr'') r2,
        (p, r4) \<leftarrow> opt_chr 115 r3]"

subsection \<open>Numbers, \<open>parseFloat\<close> and \<open>parseInt\<close>\<close>

text \<open>\<open>Infty True\<close> is \<open>Infinity\<close>, \<open>Infty False\<close> is \<open>-Infinity\<close>.\<close>

datatype number = NaN | Infty bool | Num rat

fun num_ge :: "number \<Rightarrow> number \<Rightarrow> bool" where
  "num_ge (Num a) (Num b) = (b \<le> a)"
| "num_ge (Infty s) (Num b) = s"
| "num_ge (Num a) (Infty t) = (\<not> t)"
| "num_ge (Infty s) (Infty t) = (s \<or> \<not> t)"
| "num_ge NaN y = False"
| "num_ge x NaN = False"

fun num_mult :: "number \<Rightarrow> number \<Rightarrow> number" where
  "num_mult (Num a) (Num b) = Num (a * b)"
| "num_mult (Infty s) (Num b) = (if b = 0 then NaN else Infty (s = (0 < b)))"
| "num_mult (Num a) (Infty t) = (if a = 0 then NaN else Infty ((0 < a) = t))"
| "num_mult (Infty s) (Infty t) = Infty (s = t)"
| "num_mult NaN y = NaN"
| "num_mult x NaN = NaN"

fun num_add :: "number \<Rightarrow> number \<Rightarrow> number" where
  "num_add (Num a) (Num b) = Num (a + b)"
| "num_add (Infty s) (Num b) = Infty s"
| "num_add (Num a) (Infty t) = Infty t"
| "num_add (Infty s) (Infty t) = (if s = t then Infty s else NaN)"
| "num_add NaN y = NaN"
| "num_add x NaN = NaN"

definition digits_val :: "jsstring \<Rightarrow> nat" where
  "digits_val ds = foldl (\<lambda>a c. 10 * a + (c - 48)) 0 ds"

text \<open>The factor of an exponent part \<open>e\<close>, sign, digits; 1 when there is none.\<close>

definition exponent_factor :: "jsstring \<Rightarrow> rat" where
  "exponent_factor r =
     (if take 1 r = [101] \<or> take 1 r = [69] then
        (let r' = drop 1 r;
             e = (if take 1 r' = [45] \<or> take 1 r' = [43] then drop 1 r' else r');
             ed = takeWhile is_digit e
         in if ed = [] then 1
            else if take 1 r' = [45] then 1 / 10 ^ digits_val ed
            else 10 ^ digits_val ed)
      else 1)"

text \<open>
  The longest prefix that is an unsigned decimal literal (digits with an optional
  fraction, or a fraction alone, then an optional exponent), and its value.
\<close>

definition str_unsigned_decimal :: "jsstring \<Rightarrow> rat option" where
  "str_unsigned_decimal u =
     (let ip = takeWhile is_digit u;
          r1 = dropWhile is_digit u;
          fp = (if take 1 r1 = [46] then takeWhile is_digit (drop 1 r1) else []);
          r2 = (if take 1 r1 = [46] then dropWhile is_digit (drop 1 r1) else r1)
      in if ip = [] \<and> fp = [] then None
         else Some ((of_nat (digits_val ip) + of_nat (digits_val fp) / 10 ^ length fp)
                     * exponent_factor r2))"

definition parseFloat :: "jsstring \<Rightarrow> number" where
  "parseFloat s =
     (let t = dropWhile is_space s;
          u = (if take 1 t = [45] \<or> take 1 t = [43] then drop 1 t else t)
      in if take 8 u = js ''Infinity'' then Infty (take 1 t \<noteq> [45])
         else (case str_unsigned_decimal u of
                 None \<Rightarrow> NaN
               | Some r \<Rightarrow> Num (if take 1 t = [45] then - r else r)))"

definition is_hex_digit :: "nat \<Rightarrow> bool" where
  "is_hex_digit c = (is_digit c \<or> (65 \<le> c \<and> c \<le> 70) \<or> (97 \<le> c \<and> c \<le> 102))"

definition hex_val :: "jsstring \<Rightarrow> nat" where
  "hex_val hs = foldl (\<lambda>a c. 16 * a +
     (if is_digit c then c - 48 else if c \<le> 70 then c - 55 else c - 87)) 0 hs"

text \<open>\<open>parseInt\<close> with no radix: decimal, or hexadecimal after \<open>0x\<close>.\<close>

definition parseInt :: "jsstring \<Rightarrow> number" where
  "parseInt s =
     (let t = dropWhile is_space s;
          u = (if take 1 t = [45] \<or> take 1 t = [43] then drop 1 t else t);
          hex = (take 2 u = js ''0x'' \<or> take 2 u = js ''0X'');
          ds = (if hex then takeWhile is_hex_digit (drop 2 u) else takeWhile is_digit u);
          v = (if hex then hex_val ds else digits_val ds)
      in if ds = [] then NaN
         else Num (if take 1 t = [45] then - of_nat v else of_nat v))"

subsection \<open>The parser\<close>

record activity =
  description :: jsstring
  timeStr :: jsstring
  minutes :: number

record structured_note =
  clientName :: jsstring
  date :: jsstring
  activities :: "activity list"
  totalMinutes :: number

text \<open>Lines 94 to 109: the duration of a time token, in minutes.\<close>

definition resolveMinutes :: "jsstring \<Rightarrow> number" where
  "resolveMinutes ts =
     (if numeric_re ts \<noteq> None \<and> \<not> str_includes ts (js ''min'') then
        (let hours = parseFloat ts
         in if num_ge hours (Num 10) then hours else num_mult hours (Num 60))
      else if str_includes ts (js ''min'') then
        (case min_re ts of
           None \<Rightarrow> Num 0
         | Some minMatch \<Rightarrow> parseInt (to_string (prop_get minMatch 1)))
      else if str_includes ts (js ''hr'') then
        (case hr_re ts of
           None \<Rightarrow> Num 0
         | Some hrMatch \<Rightarrow> num_mult (parseFloat (to_string (prop_get hrMatch 1))) (Num 60))
      else
        (let num = parseFloat ts
         in if num_ge num (Num 10) then num else num_mult num (Num 60)))"

text \<open>
  Lines 87 to 120: the callback of \<open>forEach\<close>, on the pair of \<open>activities\<close> and
  \<open>totalMinutes\<close> it updates.
\<close>

definition processLine ::
  "activity list \<times> number \<Rightarrow> jsstring \<Rightarrow> error + activity list \<times> number" where
  "processLine st line =
     (if marker_re line \<noteq> None then
        (case activity_re line of
           None \<Rightarrow> Inr st
         | Some activityMatch \<Rightarrow>
             (case call_trim (prop_get activityMatch 1) of
                Inl e \<Rightarrow> Inl e
              | Inr act \<Rightarrow>
                  (case call_trim (prop_get activityMatch 2) of
                     Inl e \<Rightarrow> Inl e
                   | Inr ts \<Rightarrow>
                       Inr (fst st @ [\<lparr>description = act, timeStr = ts,
                                        minutes = resolveMinutes ts\<rparr>],
                            num_add (snd st) (resolveMinutes ts)))))
      else Inr st)"

fun forEach ::
  "activity list \<times> number \<Rightarrow> jsstring list \<Rightarrow> error + activity list \<times> number" where
  "forEach st [] = Inr st"
| "forEach st (line # ls) =
     (case processLine st line of Inl e \<Rightarrow> Inl e | Inr st' \<Rightarrow> forEach st' ls)"

text \<open>Line 75: the lines of the text that are not blank.\<close>

definition note_lines :: "jsstring \<Rightarrow> jsstring list" where
  "note_lines text = filter (\<lambda>line. trim line \<noteq> []) (split_on 10 text)"

text \<open>Line 78: \<open>lines[0] || ''''\<close>.\<close>

definition first_line :: "jsstring list \<Rightarrow> jsstring" where
  "first_line ls = (case ls of [] \<Rightarrow> [] | l # _ \<Rightarrow> l)"

definition parseAndStructure :: "jsstring \<Rightarrow> jsstring \<Rightarrow> error + structured_note" where
  "parseAndStructure today text =
     (let lines = note_lines text;
          clientMatch = header_re (first_line lines)
      in case (case clientMatch of
                 None \<Rightarrow> Inr (js ''Client'')
               | Some m \<Rightarrow> call_trim (prop_get m 1)) of
           Inl e \<Rightarrow> Inl e
         | Inr name \<Rightarrow>
             (case forEach ([], Num 0) (drop 1 lines) of
                Inl e \<Rightarrow> Inl e
              | Inr st \<Rightarrow>
                  Inr \<lparr>clientName = name,
                       date = (case clientMatch of
                                 None \<Rightarrow> today
                               | Some m \<Rightarrow> or_else (prop_get m 2) today),
                       activities = fst st,
                       totalMinutes = snd st\<rparr>))"

subsection \<open>Notions the properties are stated with\<close>

text \<open>
  The definitions of this subsection are not code of the parser: they say, independently
  of the regular expressions above, what the properties below speak of.
\<close>

text \<open>The sum of the durations of a list of activities, added from the left as the loop does.\<close>

definition sum_minutes :: "activity list \<Rightarrow> number" where
  "sum_minutes acts = foldl num_add (Num 0) (map minutes acts)"

text \<open>A line begins with a numbered marker: a run of digits, then a period.\<close>

definition begins_with_marker :: "jsstring \<Rightarrow> bool" where
  "begins_with_marker line =
     (takeWhile is_digit line \<noteq> [] \<and> take 1 (dropWhile is_digit line) = [46])"




text \<open>
  The text of a numbered line after its marker, and the parts of a text before and after
  its first dash (hyphen or en dash).
\<close>

definition non_dash :: "nat \<Rightarrow> bool" where
  "non_dash c = (\<not> is_dash c)"

definition after_marker :: "jsstring \<Rightarrow> jsstring" where
  "after_marker line = drop 1 (dropWhile is_digit line)"

definition before_first_dash :: "jsstring \<Rightarrow> jsstring" where
  "before_first_dash s = takeWhile non_dash s"

definition after_first_dash :: "jsstring \<Rightarrow> jsstring" where
  "after_first_dash s = drop 1 (dropWhile non_dash s)"

section \<open>Lemmas on the matcher\<close>

lemmas class_defs = is_digit_def is_space_def is_line_terminator_def is_dot_def is_dash_def
  non_digit_def is_digit_or_period_def
lemmas regex_defs = greedy_star_def lazy_plus_def greedy_plus_def greedy_range_def chr_def
  cls_def lit_def opt_chr_def first_match_def
lemmas number_defs = parseFloat_def str_unsigned_decimal_def exponent_factor_def digits_val_def
  parseInt_def
lemmas parser_defs = parseAndStructure_def note_lines_def first_line_def header_re_def
  date_re_def or_else_def processLine_def marker_re_def activity_re_def resolveMinutes_def
  numeric_re_def min_re_def hr_re_def prop_get_def call_trim_def to_string_def trim_def js_def

lemma first_match_None: "first_match xs = None \<longleftrightarrow> xs = []"
  by (cases xs) (simp_all add: first_match_def)

lemma first_match_mem: "first_match xs = Some m \<Longrightarrow> m \<in> set xs"
  by (cases xs) (simp_all add: first_match_def)

lemma first_match_bind_skip:
  assumes "xs = skipped @ x # later" and "\<forall>a\<in>set skipped. f a = []" and "first_match (f x) = Some m"
  shows "first_match (concat (map f xs)) = Some m"
proof -
  have skip: "concat (map f skipped) = []" using assms(2) by simp
  obtain ms where fx: "f x = m # ms"
    using assms(3) by (cases "f x") (simp_all add: first_match_def)
  show ?thesis by (simp add: assms(1) skip fx first_match_def)
qed

lemma first_match_bind:
  assumes "first_match xs = Some x" and "first_match (f x) = Some m"
  shows "first_match (concat (map f xs)) = Some m"
proof -
  obtain later where "xs = [] @ x # later"
    using assms(1) by (cases xs) (simp_all add: first_match_def)
  then show ?thesis using assms(2) first_match_bind_skip [of xs "[]" x later f m] by simp
qed

lemma lazy_star_splits:
  "lazy_star p s = map (\<lambda>k. (take k s, drop k s)) [0..<Suc (length (takeWhile p s))]"
proof (induction s)
  case Nil
  show ?case by simp
next
  case (Cons c s)
  show ?case
  proof (cases "p c")
    case False
    then show ?thesis by simp
  next
    case True
    let ?n = "length (takeWhile p s)"
    have "map (\<lambda>(m, r). (c # m, r)) (lazy_star p s)
        = map (\<lambda>k. (take (Suc k) (c # s), drop (Suc k) (c # s))) [0..<Suc ?n]"
      using Cons.IH by simp
    also have "\<dots> = map (\<lambda>k. (take k (c # s), drop k (c # s))) (map Suc [0..<Suc ?n])"
      by (simp only: map_map comp_def)
    also have "map Suc [0..<Suc ?n] = [Suc 0..<Suc (Suc ?n)]"
      by (simp only: map_Suc_upt)
    finally have step: "map (\<lambda>(m, r). (c # m, r)) (lazy_star p s)
        = map (\<lambda>k. (take k (c # s), drop k (c # s))) [Suc 0..<Suc (Suc ?n)]" .
    have "[0..<Suc (Suc ?n)] = 0 # [Suc 0..<Suc (Suc ?n)]"
      by (simp only: upt_conv_Cons zero_less_Suc)
    then show ?thesis using True step by simp
  qed
qed

lemma lazy_star_mem:
  "(m, r) \<in> set (lazy_star p s) \<longleftrightarrow> s = m @ r \<and> (\<forall>c\<in>set m. p c)"
proof (induction s arbitrary: m)
  case Nil
  show ?case by auto
next
  case (Cons c s)
  have "(m, r) \<in> set (lazy_star p (c # s)) \<longleftrightarrow>
          (m = [] \<and> r = c # s) \<or> (p c \<and> (\<exists>m'. m = c # m' \<and> (m', r) \<in> set (lazy_star p s)))"
    by force
  then show ?case by (cases m) (auto simp: Cons.IH)
qed

lemma lazy_plus_splits:
  "lazy_plus p s = map (\<lambda>k. (take k s, drop k s)) [Suc 0..<Suc (length (takeWhile p s))]"
proof -
  let ?n = "length (takeWhile p s)"
  have up: "[0..<Suc ?n] = 0 # [Suc 0..<Suc ?n]"
    by (simp only: upt_conv_Cons zero_less_Suc)
  have "?n \<le> length s" by (simp add: length_takeWhile_le)
  then have keep: "\<forall>k\<in>set [Suc 0..<Suc ?n]. take k s \<noteq> []" by auto
  have "filter (\<lambda>(m, r). m \<noteq> []) (map (\<lambda>k. (take k s, drop k s)) [Suc 0..<Suc ?n])
      = map (\<lambda>k. (take k s, drop k s)) [Suc 0..<Suc ?n]"
    using keep by (simp add: filter_map comp_def)
  then show ?thesis by (simp add: lazy_plus_def lazy_star_splits up del: upt_Suc)
qed

lemma take_run: "take (length (takeWhile p s)) s = takeWhile p s"
  by (metis takeWhile_eq_take)

lemma drop_run: "drop (length (takeWhile p s)) s = dropWhile p s"
  by (metis dropWhile_eq_drop)

lemma greedy_star_first:
  "first_match (greedy_star p s) = Some (takeWhile p s, dropWhile p s)"
  by (simp add: greedy_star_def lazy_star_splits first_match_def take_run drop_run)

lemma greedy_plus_first:
  assumes "takeWhile p s \<noteq> []"
  shows "first_match (greedy_plus p s) = Some (takeWhile p s, dropWhile p s)"
proof -
  have "Suc 0 \<le> length (takeWhile p s)"
    using assms by (cases "takeWhile p s") simp_all
  then show ?thesis
    by (simp add: greedy_plus_def lazy_plus_splits first_match_def take_run drop_run)
qed

lemma greedy_plus_none:
  "takeWhile p s = [] \<Longrightarrow> greedy_plus p s = []"
  by (simp add: greedy_plus_def lazy_plus_splits)

lemma greedy_star_mem:
  "(m, r) \<in> set (greedy_star p s) \<longleftrightarrow> s = m @ r \<and> (\<forall>c\<in>set m. p c)"
  by (simp add: greedy_star_def lazy_star_mem)

lemma lazy_plus_mem:
  "(m, r) \<in> set (lazy_plus p s) \<longleftrightarrow> s = m @ r \<and> m \<noteq> [] \<and> (\<forall>c\<in>set m. p c)"
  by (auto simp: lazy_plus_def lazy_star_mem)

lemma greedy_plus_mem:
  "(m, r) \<in> set (greedy_plus p s) \<longleftrightarrow> s = m @ r \<and> m \<noteq> [] \<and> (\<forall>c\<in>set m. p c)"
  by (simp add: greedy_plus_def lazy_plus_mem)

lemma greedy_range_mem:
  "(m, r) \<in> set (greedy_range p lo hi s) \<longleftrightarrow>
     s = m @ r \<and> (\<forall>c\<in>set m. p c) \<and> lo \<le> length m \<and> length m \<le> hi"
  by (auto simp: greedy_range_def greedy_star_mem)

lemma chr_mem: "r \<in> set (chr c s) \<longleftrightarrow> s = c # r"
  by (auto simp: chr_def split: list.splits)

lemma header_re_shape:
  assumes "header_re l = Some m"
  shows "\<exists>g1 g2. m = [Str l, Str g1, g2]"
  using first_match_mem [OF assms [unfolded header_re_def]] by auto

lemma activity_re_shape:
  assumes "activity_re l = Some m"
  shows "\<exists>g1 g2. m = [Str l, Str g1, Str g2]"
  using first_match_mem [OF assms [unfolded activity_re_def]] by auto

lemma processLine_cases:
  "processLine st line = Inr st \<or>
   (\<exists>act ts. processLine st line =
      Inr (fst st @ [\<lparr>description = act, timeStr = ts, minutes = resolveMinutes ts\<rparr>],
           num_add (snd st) (resolveMinutes ts)))"
proof (cases "activity_re line")
  case None
  then show ?thesis by (simp add: processLine_def)
next
  case (Some m)
  then obtain g1 g2 where "m = [Str line, Str g1, Str g2]"
    using activity_re_shape by blast
  then show ?thesis using Some by (simp add: processLine_def prop_get_def call_trim_def)
qed

lemma forEach_returns: "\<exists>st'. forEach st ls = Inr st'"
proof (induction ls arbitrary: st)
  case Nil
  show ?case by simp
next
  case (Cons line ls)
  obtain st1 where "processLine st line = Inr st1"
    using processLine_cases [of st line] by blast
  then show ?case using Cons.IH [of st1] by simp
qed

lemma sum_minutes_snoc:
  "sum_minutes (acts @ [a]) = num_add (sum_minutes acts) (minutes a)"
  by (simp add: sum_minutes_def)

lemma processLine_sum:
  assumes "processLine st line = Inr st'" and "snd st = sum_minutes (fst st)"
  shows "snd st' = sum_minutes (fst st')"
  using processLine_cases [of st line] assms by (auto simp: sum_minutes_snoc)

lemma forEach_sum:
  "forEach st ls = Inr st' \<Longrightarrow> snd st = sum_minutes (fst st) \<Longrightarrow> snd st' = sum_minutes (fst st')"
proof (induction ls arbitrary: st)
  case Nil
  then show ?case by simp
next
  case (Cons line ls)
  obtain st1 where st1: "processLine st line = Inr st1"
    using processLine_cases [of st line] by blast
  have "snd st1 = sum_minutes (fst st1)"
    using processLine_sum [OF st1 Cons.prems(2)] .
  moreover have "forEach st1 ls = Inr st'" using Cons.prems(1) st1 by simp
  ultimately show ?case using Cons.IH by blast
qed

lemma client_name_returns:
  "\<exists>name. (case header_re l of None \<Rightarrow> Inr (js ''Client'') | Some m \<Rightarrow> call_trim (prop_get m 1))
      = (Inr name :: error + jsstring)"
proof (cases "header_re l")
  case None
  then show ?thesis by simp
next
  case (Some m)
  then obtain g1 g2 where "m = [Str l, Str g1, g2]" using header_re_shape by blast
  then show ?thesis using Some by (simp add: prop_get_def call_trim_def)
qed

lemma parse_returns: "\<exists>n. parseAndStructure today text = Inr n"
proof -
  obtain name where "(case header_re (first_line (note_lines text)) of
      None \<Rightarrow> Inr (js ''Client'') | Some m \<Rightarrow> call_trim (prop_get m 1)) = (Inr name :: error + jsstring)"
    using client_name_returns by blast
  moreover obtain st where "forEach ([], Num 0) (drop 1 (note_lines text)) = Inr st"
    using forEach_returns by blast
  ultimately show ?thesis by (simp add: parseAndStructure_def Let_def)
qed

lemma marker_re_none:
  assumes "\<not> begins_with_marker line"
  shows "marker_re line = None"
proof (cases "takeWhile is_digit line = []")
  case True
  then show ?thesis by (simp add: marker_re_def greedy_plus_none first_match_def)
next
  case False
  then have nodot: "take 1 (dropWhile is_digit line) \<noteq> [46]"
    using assms by (simp add: begins_with_marker_def)
  have "chr 46 r = []" if "(m, r) \<in> set (greedy_plus is_digit line)" for m r
  proof (rule ccontr)
    assume "chr 46 r \<noteq> []"
    then obtain r' where r: "r = 46 # r'"
      by (auto simp: chr_def split: list.splits if_splits)
    have line: "line = m @ 46 # r'" and m: "\<forall>c\<in>set m. is_digit c"
      using that r by (simp_all add: greedy_plus_mem)
    have "\<not> is_digit 46" by (simp add: is_digit_def)
    then have "dropWhile is_digit line = 46 # r'"
      using line m by (simp add: dropWhile_append2)
    then show False using nodot by simp
  qed
  then show ?thesis by (auto simp: marker_re_def first_match_None)
qed

lemma sample_note_any_day:
  "parseAndStructure today
     (js ''Ann 3/15/24'' @ [10] @ js ''1. Call - 75'' @ [10] @ js ''2. Visit - 1.25'')
   = Inr \<lparr>clientName = js ''Ann'', date = js ''3/15/24'',
          activities = [\<lparr>description = js ''Call'', timeStr = js ''75'', minutes = Num 75\<rparr>,
                        \<lparr>description = js ''Visit'', timeStr = js ''1.25'', minutes = Num 75\<rparr>],
          totalMinutes = Num 150\<rparr>"
  by (simp add: parser_defs regex_defs class_defs number_defs)





lemma digits_not_space: "is_digit c \<Longrightarrow> \<not> is_space c"
  by (auto simp: class_defs)

lemma period_facts: "\<not> is_space 46" "\<not> is_digit 46"
  by (simp_all add: class_defs)







lemma run_append:
  assumes "\<forall>c\<in>set a. p c" and "b = [] \<or> \<not> p (hd b)"
  shows "takeWhile p (a @ b) = a" and "dropWhile p (a @ b) = b"
  using assms by (cases b; simp)+








lemma trim_Nil_iff: "trim s = [] \<longleftrightarrow> (\<forall>c\<in>set s. is_space c)"
proof
  assume "trim s = []"
  then have d: "\<forall>x\<in>set (dropWhile is_space s). is_space x" by (simp add: trim_def)
  have "dropWhile is_space s = []"
  proof (rule ccontr)
    assume ne: "dropWhile is_space s \<noteq> []"
    then have "\<not> is_space (hd (dropWhile is_space s))" by (rule hd_dropWhile)
    moreover have "hd (dropWhile is_space s) \<in> set (dropWhile is_space s)" using ne by simp
    ultimately show False using d by blast
  qed
  then show "\<forall>c\<in>set s. is_space c" by simp
next
  assume "\<forall>c\<in>set s. is_space c"
  then have e: "dropWhile is_space s = []" by simp
  show "trim s = []" by (simp add: trim_def e)
qed

lemma trim_append_spaces:
  assumes "\<forall>c\<in>set ws. is_space c"
  shows "trim (s @ ws) = trim s"
proof (cases "\<forall>c\<in>set s. is_space c")
  case True
  then have a: "trim (s @ ws) = []" using assms by (simp add: trim_Nil_iff ball_Un)
  have b: "trim s = []" using True by (simp add: trim_Nil_iff)
  show ?thesis by (simp only: a b)
next
  case False
  then obtain x where "x \<in> set s" "\<not> is_space x" by blast
  then have front: "dropWhile is_space (s @ ws) = dropWhile is_space s @ ws"
    by (simp add: dropWhile_append1)
  have "\<forall>c\<in>set (rev ws). is_space c" using assms by simp
  then have "dropWhile is_space (rev ws @ rev (dropWhile is_space s))
      = dropWhile is_space (rev (dropWhile is_space s))"
    by (rule_tac dropWhile_append2) blast
  then show ?thesis by (simp add: trim_def front)
qed

lemma space_non_digit: "is_space c \<Longrightarrow> non_digit c"
  by (auto simp: class_defs)

lemma date_re_mem:
  assumes "(d, r) \<in> set (date_re s)"
  shows "s = d @ r \<and> d \<noteq> [] \<and> is_digit (hd d)"
proof -
  obtain a r1 r2 b r3 r4 c where
    "(a, r1) \<in> set (greedy_range is_digit 1 2 s)" "r2 \<in> set (chr 47 r1)"
    "(b, r3) \<in> set (greedy_range is_digit 1 2 r2)" "r4 \<in> set (chr 47 r3)"
    "(c, r) \<in> set (greedy_range is_digit 2 4 r4)" "d = a @ [47] @ b @ [47] @ c"
    using assms by (auto simp: date_re_def)
  then have "s = d @ r" "a \<noteq> []" "\<forall>x\<in>set a. is_digit x"
    by (auto simp: greedy_range_mem chr_mem)
  then show ?thesis
    using \<open>d = a @ [47] @ b @ [47] @ c\<close> by (cases a) auto
qed

lemma header_re_groups:
  assumes "header_re l = Some m"
  shows "\<exists>g1 g2. m = [Str l, Str g1, g2] \<and> trim g1 = trim (takeWhile non_digit l)
           \<and> (g2 = Undefined \<or> (\<exists>d. g2 = Str d \<and> d \<noteq> []))"
proof -
  from first_match_mem [OF assms [unfolded header_re_def]]
  have "\<exists>g1 r1 g2. m = [Str l, Str g1, g2] \<and> (g1, r1) \<in> set (lazy_plus non_digit l) \<and>
          ((g2 = Undefined \<and> r1 = []) \<or>
           (\<exists>w r3 d. (w, r3) \<in> set (greedy_plus is_space r1) \<and> (d, []) \<in> set (date_re r3)
              \<and> g2 = Str d))"
    by (auto split: if_splits) blast+
  then obtain g1 r1 g2 where m: "m = [Str l, Str g1, g2]"
    and g1: "(g1, r1) \<in> set (lazy_plus non_digit l)"
    and g2: "(g2 = Undefined \<and> r1 = []) \<or>
             (\<exists>w r3 d. (w, r3) \<in> set (greedy_plus is_space r1) \<and> (d, []) \<in> set (date_re r3) \<and> g2 = Str d)"
    by blast
  have l: "l = g1 @ r1" and nd: "\<forall>c\<in>set g1. non_digit c"
    using g1 by (simp_all add: lazy_plus_mem)
  from g2 show ?thesis
  proof
    assume "g2 = Undefined \<and> r1 = []"
    then have "takeWhile non_digit l = g1" using l nd by simp
    then show ?thesis using m \<open>g2 = Undefined \<and> r1 = []\<close> by simp
  next
    assume "\<exists>w r3 d. (w, r3) \<in> set (greedy_plus is_space r1) \<and> (d, []) \<in> set (date_re r3) \<and> g2 = Str d"
    then obtain w r3 d where w: "(w, r3) \<in> set (greedy_plus is_space r1)"
      and d: "(d, []) \<in> set (date_re r3)" and gd: "g2 = Str d" by blast
    have r1: "r1 = w @ r3" and ws: "\<forall>c\<in>set w. is_space c"
      using w by (simp_all add: greedy_plus_mem)
    have r3: "r3 = d" "d \<noteq> []" "is_digit (hd d)"
      using date_re_mem [OF d] by simp_all
    have "\<forall>c\<in>set (g1 @ w). non_digit c" using nd ws space_non_digit by auto
    moreover have "\<not> non_digit (hd d)" using r3 by (simp add: non_digit_def)
    ultimately have "takeWhile non_digit ((g1 @ w) @ d) = g1 @ w"
      using r3(2) run_append(1) [of "g1 @ w" non_digit d] by blast
    then have "takeWhile non_digit l = g1 @ w" using l r1 r3 by simp
    then have "trim (takeWhile non_digit l) = trim g1"
      using trim_append_spaces [OF ws] by simp
    then show ?thesis using m gd r3 by simp
  qed
qed

lemma trim_decomp:
  "s = takeWhile is_space s @ trim s @ rev (takeWhile is_space (rev (dropWhile is_space s)))"
proof -
  let ?t = "dropWhile is_space s"
  have "rev (takeWhile is_space (rev ?t) @ dropWhile is_space (rev ?t))
      = rev (dropWhile is_space (rev ?t)) @ rev (takeWhile is_space (rev ?t))"
    by (rule rev_append)
  moreover have "takeWhile is_space (rev ?t) @ dropWhile is_space (rev ?t) = rev ?t"
    by (rule takeWhile_dropWhile_id)
  ultimately have "rev (rev ?t)
      = rev (dropWhile is_space (rev ?t)) @ rev (takeWhile is_space (rev ?t))"
    by (simp only:)
  then have "?t = trim s @ rev (takeWhile is_space (rev ?t))"
    by (simp only: rev_rev_ident trim_def)
  moreover have "s = takeWhile is_space s @ ?t" by simp
  ultimately show ?thesis by simp
qed

lemma trim_last:
  assumes "trim s \<noteq> []"
  shows "\<not> is_space (last (trim s))"
proof -
  have ne: "dropWhile is_space (rev (dropWhile is_space s)) \<noteq> []"
    using assms by (simp add: trim_def)
  have "last (trim s) = hd (dropWhile is_space (rev (dropWhile is_space s)))"
    using ne by (simp add: trim_def last_rev)
  then show ?thesis using hd_dropWhile [OF ne] by simp
qed

lemma trim_hd:
  assumes "trim s \<noteq> []"
  shows "\<not> is_space (hd (trim s))"
proof -
  let ?t = "dropWhile is_space s"
  have ne: "dropWhile is_space (rev ?t) \<noteq> []"
    using assms by (simp add: trim_def)
  then have t: "?t \<noteq> []" by (metis dropWhile.simps(1) rev.simps(1))
  have "hd (trim s) = last (dropWhile is_space (rev ?t))"
    using ne by (simp add: trim_def hd_rev)
  also have "\<dots> = last (rev ?t)"
    using ne by (metis append_Nil2 last_appendR takeWhile_dropWhile_id)
  also have "\<dots> = hd ?t" using t by (simp add: last_rev)
  finally show ?thesis using hd_dropWhile [OF t] by simp
qed

lemma trim_id:
  assumes "s \<noteq> []" and "\<not> is_space (hd s)" and "\<not> is_space (last s)"
  shows "trim s = s"
proof -
  have a: "dropWhile is_space s = s" using assms(1,2) by (cases s) simp_all
  have "rev s \<noteq> []" "\<not> is_space (hd (rev s))" using assms(1,3) by (simp_all add: hd_rev)
  then have "dropWhile is_space (rev s) = rev s" by (cases "rev s") simp_all
  then show ?thesis by (simp add: trim_def a)
qed

lemma trim_dropWhile: "trim (dropWhile is_space s) = trim s"
  by (simp add: trim_def)

lemma dash_not_space: "is_dash c \<Longrightarrow> \<not> is_space c"
  by (auto simp: class_defs)

lemma lazy_plus_split:
  assumes "a \<noteq> []" and "\<forall>c\<in>set a. p c"
  shows "\<exists>later. lazy_plus p (a @ b) =
           map (\<lambda>k. (take k a, drop k a @ b)) [Suc 0..<length a] @ (a, b) # later"
proof -
  let ?n = "length (takeWhile p (a @ b))"
  have le: "length a \<le> ?n" using assms(2) by simp
  have pos: "Suc 0 \<le> length a" using assms(1) by (cases a) simp_all
  obtain k where k: "Suc ?n = length a + k"
    using le le_Suc_ex le_SucI by blast
  have "[Suc 0..<length a + k] = [Suc 0..<length a] @ [length a..<length a + k]"
    using pos by (rule upt_add_eq_append)
  then have "[Suc 0..<Suc ?n] = [Suc 0..<length a] @ [length a..<Suc ?n]"
    by (simp only: k)
  also have "[length a..<Suc ?n] = length a # [Suc (length a)..<Suc ?n]"
    using le by (simp add: upt_conv_Cons)
  finally have up: "[Suc 0..<Suc ?n] = [Suc 0..<length a] @ length a # [Suc (length a)..<Suc ?n]" .
  have "map (\<lambda>k. (take k (a @ b), drop k (a @ b))) [Suc 0..<length a]
      = map (\<lambda>k. (take k a, drop k a @ b)) [Suc 0..<length a]"
    by (rule map_cong) simp_all
  then show ?thesis
    by (simp add: lazy_plus_splits up del: upt_Suc)
qed

lemma no_dash_after_spaces:
  assumes "e \<noteq> []" and "\<not> is_space (last e)" and "\<forall>c\<in>set e. \<not> is_dash c"
    and "(w, r) \<in> set (greedy_star is_space (e @ tail))"
  shows "cls is_dash r = []"
proof -
  have eq: "e @ tail = w @ r" and w: "\<forall>c\<in>set w. is_space c"
    using assms(4) by (simp_all add: greedy_star_mem)
  from eq consider us where "e = w @ us" "us @ tail = r" | us where "e @ us = w" "tail = us @ r"
    by (auto simp: append_eq_append_conv2)
  then show ?thesis
  proof cases
    case 1
    have "us \<noteq> []"
    proof
      assume "us = []"
      then have "last e \<in> set w" using 1 assms(1) by simp
      then show False using w assms(2) by blast
    qed
    then obtain x xs where "us = x # xs" by (cases us) auto
    then have "r = x # xs @ tail" "x \<in> set e" using 1 by auto
    then show ?thesis using assms(3) by (simp add: cls_def)
  next
    case 2
    then have "last e \<in> set w" using assms(1) by auto
    then show ?thesis using w assms(2) by blast
  qed
qed

lemma activity_re_first_dash:
  assumes "ds \<noteq> []" and "\<forall>c\<in>set ds. is_digit c"
    and "\<forall>c\<in>set ws0. is_space c"
    and "d \<noteq> []" and "\<not> is_space (hd d)" and "\<not> is_space (last d)"
    and "\<forall>c\<in>set d. is_dot c" and "\<forall>c\<in>set d. \<not> is_dash c"
    and "\<forall>c\<in>set ws1. is_space c"
    and "is_dash dsh"
    and "dropWhile is_space post \<noteq> []" and "\<forall>c\<in>set (dropWhile is_space post). is_dot c"
  shows "activity_re (ds @ 46 # ws0 @ d @ ws1 @ dsh # post)
         = Some [Str (ds @ 46 # ws0 @ d @ ws1 @ dsh # post), Str d, Str (dropWhile is_space post)]"
proof -
  let ?tail = "ws1 @ dsh # post"
  let ?r2 = "ws0 @ d @ ?tail"
  let ?line = "ds @ 46 # ?r2"
  let ?tok = "dropWhile is_space post"
  have 1: "first_match (greedy_plus is_digit ?line) = Some (ds, 46 # ?r2)"
    using greedy_plus_first [of is_digit ?line] assms(1)
      run_append [OF assms(2), of "46 # ?r2"] by (simp add: period_facts)
  have c1: "first_match (chr 46 (46 # ?r2)) = Some ?r2"
    by (simp add: chr_def first_match_def)
  have 2: "first_match (greedy_star is_space ?r2) = Some (ws0, d @ ?tail)"
    using greedy_star_first [of is_space ?r2] assms(4,5)
      run_append [OF assms(3), of "d @ ?tail"] by simp
  obtain later where 3: "lazy_plus is_dot (d @ ?tail) =
      map (\<lambda>k. (take k d, drop k d @ ?tail)) [Suc 0..<length d] @ (d, ?tail) # later"
    using lazy_plus_split [OF assms(4,7)] by blast
  have 4: "first_match (greedy_star is_space ?tail) = Some (ws1, dsh # post)"
    using greedy_star_first [of is_space ?tail] dash_not_space [OF assms(10)]
      run_append [OF assms(9), of "dsh # post"] by simp
  have c2: "first_match (cls is_dash (dsh # post)) = Some post"
    using assms(10) by (simp add: cls_def first_match_def)
  have 5: "first_match (greedy_star is_space post) = Some (takeWhile is_space post, ?tok)"
    by (rule greedy_star_first)
  have run: "takeWhile is_dot ?tok = ?tok" "dropWhile is_dot ?tok = []"
    using assms(12) by simp_all
  have 6: "first_match (greedy_plus is_dot ?tok) = Some (?tok, [])"
    using greedy_plus_first [of is_dot ?tok, unfolded run, OF assms(11)] .
  have skip: "cls is_dash r = []"
    if "Suc 0 \<le> k" "k < length d" "(w, r) \<in> set (greedy_star is_space (drop k d @ ?tail))"
    for k w r
  proof -
    have e: "drop k d \<noteq> []" "last (drop k d) = last d" "set (drop k d) \<subseteq> set d"
      using that(2) by (simp_all add: set_drop_subset)
    have "\<not> is_space (last (drop k d))" "\<forall>c\<in>set (drop k d). \<not> is_dash c"
      using e assms(6,8) by auto
    then show ?thesis
      using no_dash_after_spaces [OF e(1) _ _ that(3)] by blast
  qed
  show ?thesis
    unfolding activity_re_def
    apply (rule first_match_bind [OF 1])
    apply (simp only: prod.case)
    apply (rule first_match_bind [OF c1])
    apply (rule first_match_bind [OF 2])
    apply (simp only: prod.case)
    apply (rule first_match_bind_skip [OF 3])
     apply (auto simp: skip)[1]
    apply (simp only: prod.case)
    apply (rule first_match_bind [OF 4])
    apply (simp only: prod.case)
    apply (rule first_match_bind [OF c2])
    apply (rule first_match_bind [OF 5])
    apply (simp only: prod.case)
    apply (rule first_match_bind [OF 6])
    apply (simp add: first_match_def)
    done
qed

lemma marker_line_split:
  assumes "begins_with_marker line"
  shows "line = takeWhile is_digit line @ 46 # after_marker line"
proof -
  have "take 1 (dropWhile is_digit line) = [46]"
    using assms by (simp add: begins_with_marker_def)
  then have "dropWhile is_digit line = 46 # drop 1 (dropWhile is_digit line)"
    by (cases "dropWhile is_digit line") simp_all
  then have "takeWhile is_digit line @ dropWhile is_digit line
      = takeWhile is_digit line @ 46 # after_marker line"
    by (simp only: after_marker_def)
  then show ?thesis by simp
qed

lemma marker_re_some:
  assumes "begins_with_marker line"
  shows "marker_re line = Some [Str (takeWhile is_digit line @ [46])]"
proof -
  have ne: "takeWhile is_digit line \<noteq> []"
    using assms by (simp add: begins_with_marker_def)
  have "dropWhile is_digit line = 46 # after_marker line"
    using marker_line_split [OF assms] by (metis same_append_eq takeWhile_dropWhile_id)
  then have 1: "first_match (greedy_plus is_digit line)
      = Some (takeWhile is_digit line, 46 # after_marker line)"
    using greedy_plus_first [OF ne] by simp
  show ?thesis
    unfolding marker_re_def
    apply (rule first_match_bind [OF 1])
    apply (simp add: chr_def first_match_def)
    done
qed

section \<open>The claims\<close>

subsection \<open>C1: purely numeric time tokens\<close>



subsection \<open>C2: a time token that holds no number\<close>

text \<open>
  Claim C2 states that a candidate line whose time token holds no number that can be
  parsed is kept as an activity of 0 minutes. The code keeps the line, but on the fallback
  branch (lines 106 to 109) \<open>parseFloat\<close> returns \<open>NaN\<close>, \<open>NaN >= 10\<close> is false and
  \<open>NaN * 60\<close> is \<open>NaN\<close>: for the note below the activity has \<open>minutes = NaN\<close>, not 0,
  and the total is \<open>NaN\<close> as well. The branches for \<open>min\<close> and \<open>hr\<close> keep the initial 0
  when their pattern fails; the fallback branch has no such guard.
\<close>

theorem unparsable_token_not_zero:
  "parseAndStructure (js ''11/2/2026'') (js ''Bob'' @ [10] @ js ''1. Walk - abc'')
   = Inr \<lparr>clientName = js ''Bob'', date = js ''11/2/2026'',
          activities = [\<lparr>description = js ''Walk'', timeStr = js ''abc'', minutes = NaN\<rparr>],
          totalMinutes = NaN\<rparr>
   \<and> parseFloat (js ''abc'') = NaN \<and> NaN \<noteq> Num 0"
  by (simp add: parser_defs regex_defs class_defs number_defs)

subsection \<open>C3: minutes are not negative\<close>

text \<open>
  Claim C3 states that every activity has \<open>minutes >= 0\<close>. The time token \<open>-5\<close> (after
  a second dash) reaches the fallback branch, where \<open>parseFloat\<close> reads the sign: the
  activity has -300 minutes, and so has the total. A token that holds no number gives
  \<open>NaN\<close> there (see C2), and \<open>NaN >= 0\<close> is false as well.
\<close>

theorem negative_minutes:
  "parseAndStructure (js ''11/2/2026'') (js ''Bob'' @ [10] @ js ''1. Refund - -5'')
   = Inr \<lparr>clientName = js ''Bob'', date = js ''11/2/2026'',
          activities = [\<lparr>description = js ''Refund'', timeStr = js ''-5'', minutes = Num (- 300)\<rparr>],
          totalMinutes = Num (- 300)\<rparr>
   \<and> \<not> num_ge (Num (- 300)) (Num 0)
   \<and> parseAndStructure (js ''11/2/2026'') (js ''Bob'' @ [10] @ js ''1. Walk - abc'')
   = Inr \<lparr>clientName = js ''Bob'', date = js ''11/2/2026'',
          activities = [\<lparr>description = js ''Walk'', timeStr = js ''abc'', minutes = NaN\<rparr>],
          totalMinutes = NaN\<rparr>
   \<and> \<not> num_ge NaN (Num 0)"
  by (simp add: parser_defs regex_defs class_defs number_defs)

subsection \<open>C4: the parse is total\<close>

text \<open>
  Claim C4. For every text, the empty one and malformed ones included, and for every
  current date, \<open>parseAndStructure\<close> returns a note and no error. The one error of the
  model is the TypeError of \<open>trim\<close> called on an \<open>undefined\<close> capture group; the groups
  the code reads take part in every match.
\<close>

theorem parse_total: "\<exists>n. parseAndStructure today text = Inr n"
proof -
  obtain name where "(case header_re (first_line (note_lines text)) of
      None \<Rightarrow> Inr (js ''Client'') | Some m \<Rightarrow> call_trim (prop_get m 1)) = (Inr name :: error + jsstring)"
    using client_name_returns by blast
  moreover obtain st where "forEach ([], Num 0) (drop 1 (note_lines text)) = Inr st"
    using forEach_returns by blast
  ultimately show ?thesis by (simp add: parseAndStructure_def Let_def)
qed

text \<open>
  The empty text gives the placeholder name, the current date and no activity.
\<close>

theorem parse_total_witness:
  "parseAndStructure (js ''11/2/2026'') []
   = Inr \<lparr>clientName = js ''Client'', date = js ''11/2/2026'', activities = [],
          totalMinutes = Num 0\<rparr>"
proof -
  have "parseAndStructure (js ''11/2/2026'') []
        = Inr \<lparr>clientName = js ''Client'', date = js ''11/2/2026'', activities = [],
               totalMinutes = Num 0\<rparr>"
    by (simp add: parser_defs regex_defs class_defs)
  then show ?thesis using parse_total [of "js ''11/2/2026''" "[]"] by simp
qed

subsection \<open>C5: the client name\<close>

text \<open>
  Claim C5 states that \<open>clientName\<close> is never empty: the trimmed non-digit prefix of
  the first non-blank line when the header pattern matches, the placeholder \<open>Client\<close>
  when extraction fails. For a header made of two spaces and a date the pattern matches
  with a first group of one space, and \<open>clientName\<close> is the empty string. The same date
  with one leading space, or with none, does not match the pattern and gets the
  placeholder and the current date.
\<close>

theorem empty_client_name:
  "parseAndStructure (js ''11/2/2026'') (js ''  1/2/34'')
   = Inr \<lparr>clientName = [], date = js ''1/2/34'', activities = [], totalMinutes = Num 0\<rparr>
   \<and> parseAndStructure (js ''11/2/2026'') (js '' 1/2/34'')
   = Inr \<lparr>clientName = js ''Client'', date = js ''11/2/2026'', activities = [],
          totalMinutes = Num 0\<rparr>
   \<and> parseAndStructure (js ''11/2/2026'') (js ''1/2/34'')
   = Inr \<lparr>clientName = js ''Client'', date = js ''11/2/2026'', activities = [],
          totalMinutes = Num 0\<rparr>"
  by (simp add: parser_defs regex_defs class_defs number_defs)

text \<open>
  The rest of the claim holds for every text: when the header pattern does not match,
  \<open>clientName\<close> is the placeholder and \<open>date\<close> is the current date; when it matches,
  \<open>clientName\<close> is the trimmed non-digit prefix of the first non-blank line. So
  \<open>clientName\<close> is empty exactly when the pattern matches and that prefix is white
  space only.
\<close>

lemma client_name_extraction:
  "\<exists>n. parseAndStructure today text = Inr n
       \<and> (header_re (first_line (note_lines text)) = None \<longrightarrow>
            clientName n = js ''Client'' \<and> date n = today)
       \<and> (header_re (first_line (note_lines text)) \<noteq> None \<longrightarrow>
            clientName n = trim (takeWhile non_digit (first_line (note_lines text))))
       \<and> (clientName n = [] \<longleftrightarrow>
            header_re (first_line (note_lines text)) \<noteq> None \<and>
            list_all is_space (takeWhile non_digit (first_line (note_lines text))))"
proof -
  obtain n where n: "parseAndStructure today text = Inr n"
    using parse_returns by blast
  have "(header_re (first_line (note_lines text)) = None \<longrightarrow>
            clientName n = js ''Client'' \<and> date n = today)
       \<and> (header_re (first_line (note_lines text)) \<noteq> None \<longrightarrow>
            clientName n = trim (takeWhile non_digit (first_line (note_lines text))))
       \<and> (clientName n = [] \<longleftrightarrow>
            header_re (first_line (note_lines text)) \<noteq> None \<and>
            list_all is_space (takeWhile non_digit (first_line (note_lines text))))"
  proof (cases "header_re (first_line (note_lines text))")
    case None
    then have "clientName n = js ''Client'' \<and> date n = today"
      using n by (auto simp: parseAndStructure_def Let_def split: sum.splits)
    then show ?thesis using None by (simp add: js_def)
  next
    case (Some m)
    obtain g1 g2 where m: "m = [Str (first_line (note_lines text)), Str g1, g2]"
      and g1: "trim g1 = trim (takeWhile non_digit (first_line (note_lines text)))"
      using header_re_groups [OF Some] by blast
    have "clientName n = trim g1"
      using n Some m
      by (auto simp: parseAndStructure_def Let_def prop_get_def call_trim_def split: sum.splits)
    then show ?thesis using Some g1 by (simp add: trim_Nil_iff list_all_iff)
  qed
  from conjI [OF n this] show ?thesis by (rule exI)
qed

text \<open>
  The header \<open>Ann 3/15/24\<close>: the pattern matches, the non-digit prefix is \<open>Ann\<close> and a
  space, the name is \<open>Ann\<close>.
\<close>

lemma client_name_extraction_example:
  "parseAndStructure (js ''11/2/2026'')
     (js ''Ann 3/15/24'' @ [10] @ js ''1. Call - 75'' @ [10] @ js ''2. Visit - 1.25'')
   = Inr \<lparr>clientName = js ''Ann'', date = js ''3/15/24'',
          activities = [\<lparr>description = js ''Call'', timeStr = js ''75'', minutes = Num 75\<rparr>,
                        \<lparr>description = js ''Visit'', timeStr = js ''1.25'', minutes = Num 75\<rparr>],
          totalMinutes = Num 150\<rparr>
   \<and> first_line (note_lines (js ''Ann 3/15/24'' @ [10] @ js ''1. Call - 75'' @ [10] @ js ''2. Visit - 1.25''))
       = js ''Ann 3/15/24''
   \<and> header_re (js ''Ann 3/15/24'') \<noteq> None
   \<and> takeWhile non_digit (js ''Ann 3/15/24'') = js ''Ann ''
   \<and> js ''Ann'' = trim (js ''Ann '')"
proof -
  have f: "first_line (note_lines (js ''Ann 3/15/24'' @ [10] @ js ''1. Call - 75'' @ [10] @ js ''2. Visit - 1.25''))
       = js ''Ann 3/15/24''"
    by (simp add: parser_defs class_defs)
  have h: "header_re (js ''Ann 3/15/24'') \<noteq> None"
    by (simp add: parser_defs regex_defs class_defs)
  have t: "takeWhile non_digit (js ''Ann 3/15/24'') = js ''Ann ''"
    by (simp add: js_def class_defs)
  show ?thesis
    using client_name_extraction [of "js ''11/2/2026''"
        "js ''Ann 3/15/24'' @ [10] @ js ''1. Call - 75'' @ [10] @ js ''2. Visit - 1.25''"]
      sample_note_any_day [of "js ''11/2/2026''"] f h t
    by simp
qed

subsection \<open>C6: time tokens with a unit\<close>




subsection \<open>C7: the total is the sum\<close>

text \<open>
  Claim C7. For every text, \<open>totalMinutes\<close> of the returned note is the sum of the
  \<open>minutes\<close> of its activities, added in order from 0.
\<close>

theorem total_is_sum:
  "\<exists>n. parseAndStructure today text = Inr n \<and> totalMinutes n = sum_minutes (activities n)"
proof -
  obtain n where n: "parseAndStructure today text = Inr n"
    using parse_returns by blast
  obtain st where st: "forEach ([], Num 0) (drop 1 (note_lines text)) = Inr st"
    using forEach_returns by blast
  have "snd st = sum_minutes (fst st)"
    using forEach_sum [OF st] by (simp add: sum_minutes_def)
  moreover have "activities n = fst st \<and> totalMinutes n = snd st"
    using n st by (auto simp: parseAndStructure_def Let_def split: sum.splits)
  ultimately have "totalMinutes n = sum_minutes (activities n)" by simp
  from conjI [OF n this] show ?thesis by (rule exI)
qed

text \<open>
  A note of two activities of 75 minutes each: the total is 150.
\<close>

theorem total_is_sum_witness:
  "parseAndStructure (js ''11/2/2026'')
     (js ''Ann 3/15/24'' @ [10] @ js ''1. Call - 75'' @ [10] @ js ''2. Visit - 1.25'')
   = Inr \<lparr>clientName = js ''Ann'', date = js ''3/15/24'',
          activities = [\<lparr>description = js ''Call'', timeStr = js ''75'', minutes = Num 75\<rparr>,
                        \<lparr>description = js ''Visit'', timeStr = js ''1.25'', minutes = Num 75\<rparr>],
          totalMinutes = Num 150\<rparr>
   \<and> Num 150 = sum_minutes [\<lparr>description = js ''Call'', timeStr = js ''75'', minutes = Num 75\<rparr>,
                        \<lparr>description = js ''Visit'', timeStr = js ''1.25'', minutes = Num 75\<rparr>]"
  using total_is_sum [of "js ''11/2/2026''"
      "js ''Ann 3/15/24'' @ [10] @ js ''1. Call - 75'' @ [10] @ js ''2. Visit - 1.25''"]
    sample_note_any_day [of "js ''11/2/2026''"]
  by simp

subsection \<open>C8: parsing twice\<close>



subsection \<open>C9: a line with several dashes\<close>

text \<open>
  Claim C9, amended. The claim states that every numbered line with more than one dash
  is split at its first dash. A dash that directly follows the marker is not a separator:
  the description group needs one unit at least, so the description begins with that dash
  and the split is at a later one. What holds: for every line that begins with a marker and
  has a dash, if the trimmed text between the marker and the first dash is not empty and
  holds no line terminator, and the text after the first dash, past its leading white
  space, is not empty and holds no line terminator, then the description is the trimmed
  text before the first dash and the time token is the whole trimmed remainder, later
  dashes included.
\<close>

theorem split_at_first_dash:
  assumes "begins_with_marker line"
    and "dropWhile non_dash (after_marker line) \<noteq> []"
    and "trim (before_first_dash (after_marker line)) \<noteq> []"
    and "list_all is_dot (trim (before_first_dash (after_marker line)))"
    and "trim (after_first_dash (after_marker line)) \<noteq> []"
    and "list_all is_dot (dropWhile is_space (after_first_dash (after_marker line)))"
  shows "processLine st line =
           Inr (fst st @ [\<lparr>description = trim (before_first_dash (after_marker line)),
                            timeStr = trim (after_first_dash (after_marker line)),
                            minutes = resolveMinutes (trim (after_first_dash (after_marker line)))\<rparr>],
                num_add (snd st) (resolveMinutes (trim (after_first_dash (after_marker line)))))"
proof -
  define ds where "ds = takeWhile is_digit line"
  define rest where "rest = after_marker line"
  define pre where "pre = before_first_dash rest"
  define post where "post = after_first_dash rest"
  define d where "d = trim pre"
  define ws0 where "ws0 = takeWhile is_space pre"
  define ws1 where "ws1 = rev (takeWhile is_space (rev (dropWhile is_space pre)))"
  have line: "line = ds @ 46 # rest"
    using marker_line_split [OF assms(1)] by (simp add: ds_def rest_def)
  have ds: "ds \<noteq> []" "\<forall>c\<in>set ds. is_digit c"
    using assms(1) by (auto simp: ds_def begins_with_marker_def dest: set_takeWhileD)
  obtain dsh where dsh: "dropWhile non_dash rest = dsh # post" "is_dash dsh"
  proof -
    have ne: "dropWhile non_dash rest \<noteq> []" using assms(2) by (simp add: rest_def)
    then have "\<not> non_dash (hd (dropWhile non_dash rest))" by (rule hd_dropWhile)
    then have "is_dash (hd (dropWhile non_dash rest))" by (simp add: non_dash_def)
    moreover have "dropWhile non_dash rest = hd (dropWhile non_dash rest) # post"
      using ne by (cases "dropWhile non_dash rest") (simp_all add: post_def after_first_dash_def)
    ultimately show ?thesis using that by blast
  qed
  have "rest = takeWhile non_dash rest @ dropWhile non_dash rest" by simp
  then have rest: "rest = pre @ dsh # post"
    by (simp only: dsh(1) pre_def before_first_dash_def)
  have pre: "pre = ws0 @ d @ ws1"
    unfolding ws0_def d_def ws1_def by (rule trim_decomp)
  have ws: "\<forall>c\<in>set ws0. is_space c" "\<forall>c\<in>set ws1. is_space c"
    by (auto simp: ws0_def ws1_def dest: set_takeWhileD)
  have dne: "d \<noteq> []" using assms(3) by (simp add: d_def pre_def rest_def)
  have dends: "\<not> is_space (hd d)" "\<not> is_space (last d)"
    using dne trim_hd [of pre] trim_last [of pre] by (simp_all add: d_def)
  have ddot: "\<forall>c\<in>set d. is_dot c"
    using assms(4) by (simp add: d_def pre_def rest_def list_all_iff)
  have "\<forall>c\<in>set pre. non_dash c"
    by (auto simp: pre_def before_first_dash_def dest: set_takeWhileD)
  then have ddash: "\<forall>c\<in>set d. \<not> is_dash c"
    using pre by (auto simp: non_dash_def)
  have tok: "\<forall>c\<in>set (dropWhile is_space post). is_dot c"
    using assms(6) by (simp add: post_def rest_def list_all_iff)
  have tne: "dropWhile is_space post \<noteq> []"
  proof
    assume e: "dropWhile is_space post = []"
    have "trim post = []" by (simp add: trim_def e)
    then show False using assms(5) by (simp add: post_def rest_def)
  qed
  have "line = ds @ 46 # ws0 @ d @ ws1 @ dsh # post"
    using line rest pre by simp
  then have act: "activity_re line = Some [Str line, Str d, Str (dropWhile is_space post)]"
    using activity_re_first_dash [OF ds ws(1) dne dends ddot ddash ws(2) dsh(2) tne tok] by simp
  have mk: "marker_re line \<noteq> None"
    using marker_re_some [OF assms(1)] by simp
  have "trim d = d" using trim_id [OF dne dends] .
  moreover have "trim (dropWhile is_space post) = trim post" by (rule trim_dropWhile)
  ultimately have "processLine st line =
      Inr (fst st @ [\<lparr>description = d, timeStr = trim post, minutes = resolveMinutes (trim post)\<rparr>],
           num_add (snd st) (resolveMinutes (trim post)))"
    using mk act by (simp add: processLine_def prop_get_def call_trim_def)
  then show ?thesis by (simp add: d_def pre_def post_def rest_def)
qed

text \<open>
  The line of the claim: the description is \<open>Hospital visit\<close>, the time token is
  \<open>reviewed discharge planning - 90\<close>; the token is not numeric and holds neither \<open>min\<close>
  nor \<open>hr\<close>, so the fallback branch resolves it (to \<open>NaN\<close>).
\<close>

theorem split_at_first_dash_witness:
  "begins_with_marker (js ''1. Hospital visit - reviewed discharge planning - 90'')
   \<and> dropWhile non_dash (after_marker (js ''1. Hospital visit - reviewed discharge planning - 90'')) \<noteq> []
   \<and> trim (before_first_dash (after_marker (js ''1. Hospital visit - reviewed discharge planning - 90'')))
       = js ''Hospital visit''
   \<and> list_all is_dot (js ''Hospital visit'') \<and> js ''Hospital visit'' \<noteq> []
   \<and> trim (after_first_dash (after_marker (js ''1. Hospital visit - reviewed discharge planning - 90'')))
       = js ''reviewed discharge planning - 90''
   \<and> js ''reviewed discharge planning - 90'' \<noteq> []
   \<and> list_all is_dot (dropWhile is_space
         (after_first_dash (after_marker (js ''1. Hospital visit - reviewed discharge planning - 90''))))
   \<and> numeric_re (js ''reviewed discharge planning - 90'') = None
   \<and> \<not> str_includes (js ''reviewed discharge planning - 90'') (js ''min'')
   \<and> \<not> str_includes (js ''reviewed discharge planning - 90'') (js ''hr'')
   \<and> resolveMinutes (js ''reviewed discharge planning - 90'') = NaN
   \<and> processLine ([], Num 0) (js ''1. Hospital visit - reviewed discharge planning - 90'')
       = Inr ([\<lparr>description = js ''Hospital visit'',
                   timeStr = js ''reviewed discharge planning - 90'', minutes = NaN\<rparr>], NaN)"
proof -
  let ?line = "js ''1. Hospital visit - reviewed discharge planning - 90''"
  have h1: "begins_with_marker ?line"
    by (simp add: begins_with_marker_def js_def class_defs)
  have h2: "dropWhile non_dash (after_marker ?line) \<noteq> []"
    by (simp add: after_marker_def non_dash_def js_def class_defs)
  have b: "trim (before_first_dash (after_marker ?line)) = js ''Hospital visit''"
    by (simp add: before_first_dash_def after_marker_def non_dash_def trim_def js_def class_defs)
  have a: "trim (after_first_dash (after_marker ?line)) = js ''reviewed discharge planning - 90''"
    by (simp add: after_first_dash_def after_marker_def non_dash_def trim_def js_def class_defs)
  have d: "list_all is_dot (js ''Hospital visit'')" "js ''Hospital visit'' \<noteq> []"
    "js ''reviewed discharge planning - 90'' \<noteq> []"
    by (simp_all add: js_def class_defs)
  have h6: "list_all is_dot (dropWhile is_space (after_first_dash (after_marker ?line)))"
    by (simp add: after_first_dash_def after_marker_def non_dash_def js_def class_defs)
  have n: "numeric_re (js ''reviewed discharge planning - 90'') = None"
    by (simp add: numeric_re_def regex_defs js_def class_defs)
  have i: "\<not> str_includes (js ''reviewed discharge planning - 90'') (js ''min'')"
    "\<not> str_includes (js ''reviewed discharge planning - 90'') (js ''hr'')"
    by (simp_all add: js_def)
  have f: "parseFloat (js ''reviewed discharge planning - 90'') = NaN"
    by (simp add: number_defs js_def class_defs)
  have r: "resolveMinutes (js ''reviewed discharge planning - 90'') = NaN"
    by (simp add: resolveMinutes_def n i f)
  have h3: "trim (before_first_dash (after_marker ?line)) \<noteq> []" using b d by simp
  have h4: "list_all is_dot (trim (before_first_dash (after_marker ?line)))" using b d by simp
  have h5: "trim (after_first_dash (after_marker ?line)) \<noteq> []" using a d by simp
  show ?thesis
    using split_at_first_dash [OF h1 h2 h3 h4 h5 h6, of "([], Num 0)"] h1 h2 b a d h6 n i r
    by simp
qed

text \<open>
  The line \<open>1. - a - b\<close> has two dashes. The text before its first dash is blank and the
  text after it is \<open>a - b\<close>; the code splits at the second dash, with description \<open>- a\<close>
  and time token \<open>b\<close>.
\<close>

theorem first_dash_counterexample:
  "processLine ([], Num 0) (js ''1. - a - b'')
     = Inr ([\<lparr>description = js ''- a'', timeStr = js ''b'', minutes = NaN\<rparr>], NaN)
   \<and> trim (before_first_dash (after_marker (js ''1. - a - b''))) = []
   \<and> trim (after_first_dash (after_marker (js ''1. - a - b''))) = js ''a - b''
   \<and> js ''- a'' \<noteq> trim (before_first_dash (after_marker (js ''1. - a - b'')))
   \<and> js ''b'' \<noteq> trim (after_first_dash (after_marker (js ''1. - a - b'')))"
  by (simp add: parser_defs regex_defs class_defs number_defs before_first_dash_def
      after_first_dash_def after_marker_def non_dash_def)

subsection \<open>C10: a marker that is not at the start of the line\<close>

text \<open>
  Claim C10. A line that does not begin with a numbered marker is dropped: the
  activities and the total are unchanged. In particular a line whose first unit is not a
  digit is dropped whatever follows it, also when the rest of the line is a well-formed
  entry: the marker test is anchored at the start of the untrimmed line.
\<close>

theorem unanchored_marker_dropped:
  "(\<not> begins_with_marker line \<longrightarrow> processLine st line = Inr st) \<and>
   (p \<noteq> [] \<and> \<not> is_digit (hd p) \<longrightarrow> processLine st (p @ rest) = Inr st)"
proof -
  have a: "processLine st l = Inr st" if "\<not> begins_with_marker l" for l
    using marker_re_none [OF that] by (simp add: processLine_def)
  have "\<not> begins_with_marker (p @ rest)" if "p \<noteq> []" "\<not> is_digit (hd p)"
    using that by (cases p) (simp_all add: begins_with_marker_def)
  then show ?thesis using a by blast
qed

text \<open>
  The line of the claim, with its leading space, is dropped; without the space it is
  an activity of 300 minutes.
\<close>

theorem unanchored_marker_dropped_witness:
  "\<not> begins_with_marker (js '' 1. Task - 5'') \<and> js '' '' \<noteq> [] \<and> \<not> is_digit (hd (js '' ''))
   \<and> processLine ([], Num 0) (js '' 1. Task - 5'') = Inr ([], Num 0)
   \<and> processLine ([], Num 0) (js '' '' @ js ''1. Task - 5'') = Inr ([], Num 0)
   \<and> processLine ([], Num 0) (js ''1. Task - 5'')
       = Inr ([\<lparr>description = js ''Task'', timeStr = js ''5'', minutes = Num 300\<rparr>], Num 300)"
proof -
  have h1: "\<not> begins_with_marker (js '' 1. Task - 5'')"
    by (simp add: begins_with_marker_def js_def is_digit_def)
  have h2: "js '' '' \<noteq> [] \<and> \<not> is_digit (hd (js '' ''))"
    by (simp add: js_def is_digit_def)
  have kept: "processLine ([], Num 0) (js ''1. Task - 5'')
       = Inr ([\<lparr>description = js ''Task'', timeStr = js ''5'', minutes = Num 300\<rparr>], Num 300)"
    by (simp add: parser_defs regex_defs class_defs number_defs)
  show ?thesis
    using unanchored_marker_dropped [of "js '' 1. Task - 5''" "([], Num 0)" "js '' ''" "js ''1. Task - 5''"]
      h1 h2 kept by simp
qed

end
